theory Spec2Isabelle
  imports Complex_Main "HOL-Library.Sublist"
begin

section \<open>deploy-watcher: data model\<close>

text \<open>
  A shallow embedding of \<^verbatim>\<open>src/watcher.py\<close>. Python strings are \<open>string\<close>,
  Python integers are \<open>int\<close>, clock readings and durations (Python floats read from
  \<^verbatim>\<open>time.time()\<close> and \<^verbatim>\<open>time.monotonic()\<close>) are taken as exact \<open>real\<close>
  numbers of seconds or milliseconds. Whatever the outside world decides (the answer of
  the HTTP client, the fate of the rollback process, the clock) is an explicit argument.
\<close>

datatype ServiceStatus = HEALTHY | DEGRADED | DOWN | UNKNOWN

text \<open>
  \<^verbatim>\<open>CheckResult\<close>; the \<^verbatim>\<open>timestamp\<close> field (wall-clock time of construction) is
  read by no operation modelled here and is left out.
\<close>

record CheckResult =
  service_name :: string
  status :: ServiceStatus
  response_time_ms :: real
  status_code :: "int option"
  error :: "string option"

record ServiceConfig =
  name :: string
  url :: string
  http_method :: string
  expected_status :: int
  expected_body :: "string option"
  headers :: "(string \<times> string) list"

section \<open>HealthChecker.check\<close>

text \<open>
  What \<^verbatim>\<open>await self.client.request(...)\<close> delivers: a response (status code and
  decoded body text), an \<^verbatim>\<open>httpx.TimeoutException\<close>, or any other exception
  that \<^verbatim>\<open>except Exception\<close> catches (with its \<^verbatim>\<open>str(e)\<close>). Here and below,
  what is not an \<^verbatim>\<open>Exception\<close> (a keyboard interrupt, the cancellation of the
  running task) ends the whole run and is no outcome of a call.
\<close>

datatype http_outcome =
  Response int string
| TimeoutException
| OtherException string

text \<open>
  \<^verbatim>\<open>service.expected_body and service.expected_body not in response.text\<close>:
  the left operand is Python truthiness of an \<^verbatim>\<open>Optional[str]\<close> (\<^verbatim>\<open>None\<close> and
  \<^verbatim>\<open>""\<close> are falsy); \<^verbatim>\<open>in\<close> on strings is the contiguous-substring test,
  \<^const>\<open>sublist\<close>.
\<close>

fun body_missing :: "string option \<Rightarrow> string \<Rightarrow> bool" where
  "body_missing None text = False"
| "body_missing (Some s) text = (s \<noteq> [] \<and> \<not> sublist s text)"

definition check :: "ServiceConfig \<Rightarrow> http_outcome \<Rightarrow> real \<Rightarrow> CheckResult" where
  "check service outcome elapsed =
     (case outcome of
        Response code text \<Rightarrow>
          (let st0 = HEALTHY;
               st1 = (if code \<noteq> expected_status service then DEGRADED else st0);
               st2 = (if body_missing (expected_body service) text then DEGRADED else st1)
           in \<lparr>service_name = name service, status = st2, response_time_ms = elapsed,
               status_code = Some code, error = None\<rparr>)
      | TimeoutException \<Rightarrow>
          \<lparr>service_name = name service, status = DOWN, response_time_ms = elapsed,
           status_code = None, error = Some ''Timeout''\<rparr>
      | OtherException msg \<Rightarrow>
          \<lparr>service_name = name service, status = DOWN, response_time_ms = elapsed,
           status_code = None, error = Some msg\<rparr>)"

section \<open>Notifier.notify\<close>

record Notifier =
  slack_url :: string
  webhook_url :: string

datatype sink = Slack | Webhook

text \<open>
  How one sink's coroutine (\<^verbatim>\<open>_send_slack\<close>, \<^verbatim>\<open>_send_webhook\<close>) ends: it
  completes, or it raises (building the payload or posting it).
\<close>

datatype send_outcome = Delivered | SendRaised string

text \<open>
  The task list of \<^verbatim>\<open>notify\<close>: one task per sink whose URL is truthy (non-empty),
  Slack first.
\<close>

definition notify_tasks :: "Notifier \<Rightarrow> sink list" where
  "notify_tasks n =
     (if slack_url n \<noteq> [] then [Slack] else []) @
     (if webhook_url n \<noteq> [] then [Webhook] else [])"

text \<open>
  \<^verbatim>\<open>asyncio.gather(*tasks, return_exceptions=True)\<close>: every task runs; the value
  of the gather is the list of the tasks' results, an exception standing in the place of
  the task that raised it.
\<close>

definition gather_return_exceptions :: "(sink \<Rightarrow> send_outcome) \<Rightarrow> sink list \<Rightarrow> send_outcome list" where
  "gather_return_exceptions net tasks = map net tasks"

text \<open>
  One run of \<^verbatim>\<open>notify\<close>: the value the call returns to its caller (\<open>None\<close> is
  Python's \<^verbatim>\<open>None\<close>, \<open>Some outs\<close> would be a list of outcomes), the sinks whose
  coroutine was started, with the message and results handed to each, and the value of
  the gather. The function body has no \<^verbatim>\<open>return\<close> statement: the value of the
  gather is dropped.
\<close>

record notify_run =
  returned_value :: "send_outcome list option"
  started :: "(sink \<times> string \<times> CheckResult list) list"
  gathered :: "send_outcome list"

definition notify :: "Notifier \<Rightarrow> string \<Rightarrow> CheckResult list \<Rightarrow> (sink \<Rightarrow> send_outcome) \<Rightarrow> notify_run" where
  "notify n message results net =
     (let tasks = notify_tasks n
      in if tasks \<noteq> []
         then \<lparr>returned_value = None,
               started = map (\<lambda>k. (k, message, results)) tasks,
               gathered = gather_return_exceptions net tasks\<rparr>
         else \<lparr>returned_value = None, started = [], gathered = []\<rparr>)"

section \<open>RollbackEngine.execute\<close>

record RollbackEngine =
  enabled :: bool
  command :: string
  cooldown :: real
  last_rollback :: "real option"

text \<open>
  What happens inside the \<^verbatim>\<open>try\<close> block: \<^verbatim>\<open>create_subprocess_shell\<close> raises
  (no process exists), or the process starts and \<^verbatim>\<open>communicate\<close> raises, or the
  process ends with a return code.
\<close>

datatype proc_outcome =
  LaunchRaised string
| WaitRaised string
| Exited int

text \<open>
  The environment of one call: the clock read for the cooldown test (line 189), the fate
  of the process, and the clock read after \<^verbatim>\<open>communicate\<close> (line 202).
\<close>

record exec_env =
  now_check :: real
  proc :: proc_outcome
  now_done :: real

record exec_result =
  returned :: bool
  spawned :: bool
  engine :: RollbackEngine

text \<open>
  \<^verbatim>\<open>if self._last_rollback:\<close> is Python truthiness of an \<^verbatim>\<open>Optional[float]\<close>:
  \<^verbatim>\<open>None\<close> and \<^verbatim>\<open>0.0\<close> are falsy.
\<close>

definition in_cooldown :: "RollbackEngine \<Rightarrow> real \<Rightarrow> bool" where
  "in_cooldown e now =
     (case last_rollback e of
        None \<Rightarrow> False
      | Some t \<Rightarrow> t \<noteq> 0 \<and> now - t < cooldown e)"

definition execute :: "RollbackEngine \<Rightarrow> exec_env \<Rightarrow> exec_result" where
  "execute e env =
     (if \<not> enabled e \<or> command e = [] then
        \<lparr>returned = False, spawned = False, engine = e\<rparr>
      else if in_cooldown e (now_check env) then
        \<lparr>returned = False, spawned = False, engine = e\<rparr>
      else
        (case proc env of
           LaunchRaised msg \<Rightarrow> \<lparr>returned = False, spawned = False, engine = e\<rparr>
         | WaitRaised msg \<Rightarrow> \<lparr>returned = False, spawned = True, engine = e\<rparr>
         | Exited rc \<Rightarrow>
             \<lparr>returned = (rc = 0), spawned = True,
              engine = e\<lparr>last_rollback := Some (now_done env)\<rparr>\<rparr>))"

section \<open>DeployWatcher\<close>

record DeployWatcher =
  services :: "ServiceConfig list"
  notifier :: Notifier
  rollback :: RollbackEngine
  failure_counts :: "string \<rightharpoonup> int"
  threshold :: int

subsection \<open>check_all\<close>

text \<open>
  \<^verbatim>\<open>asyncio.gather(*tasks)\<close> over tasks that do not raise. The tasks run
  concurrently and finish in some order, given here as the list of task indices in order
  of completion. Each finished task's result is stored in the slot of its own index; the
  gather returns the slots in index order once all are filled, and does not return
  (\<open>None\<close>) while one is empty.
\<close>

definition gather :: "nat list \<Rightarrow> 'a list \<Rightarrow> 'a list option" where
  "gather completion outs =
     those (fold (\<lambda>i slots. slots[i := Some (outs ! i)]) completion
              (replicate (length outs) None))"

text \<open>
  \<open>probes i\<close> is what the HTTP client delivers to the \<open>i\<close>-th service's check, and
  the elapsed time measured there.
\<close>

definition check_tasks :: "ServiceConfig list \<Rightarrow> (nat \<Rightarrow> http_outcome \<times> real) \<Rightarrow> CheckResult list" where
  "check_tasks svcs probes =
     map (\<lambda>(i, svc). check svc (fst (probes i)) (snd (probes i))) (enumerate 0 svcs)"

definition check_all :: "DeployWatcher \<Rightarrow> (nat \<Rightarrow> http_outcome \<times> real) \<Rightarrow> nat list \<Rightarrow> CheckResult list option" where
  "check_all w probes completion = gather completion (check_tasks (services w) probes)"

subsection \<open>run_once\<close>

text \<open>
  The calls the loop of \<^verbatim>\<open>run_once\<close> makes on its collaborators, each paired with
  the \<^verbatim>\<open>result.service_name\<close> of the loop iteration that made it.
\<close>

datatype call =
  NotifyCall string "CheckResult list"
| ExecuteCall

text \<open>What the outside world does during one loop iteration, should it escalate.\<close>

record escalation_env =
  net :: "sink \<Rightarrow> send_outcome"
  exec :: exec_env

text \<open>\<^verbatim>\<open>self.failure_counts.get(name, 0)\<close>\<close>

definition get_count :: "(string \<rightharpoonup> int) \<Rightarrow> string \<Rightarrow> int" where
  "get_count counts n = (case counts n of None \<Rightarrow> 0 | Some c \<Rightarrow> c)"

text \<open>
  The body of the \<^verbatim>\<open>for result in results\<close> loop (lines 258 to 268). Neither
  \<^verbatim>\<open>notify\<close> nor \<^verbatim>\<open>execute\<close> raises, and the loop reads the value of neither.
\<close>

definition handle_result ::
  "CheckResult list \<Rightarrow> escalation_env \<Rightarrow> DeployWatcher \<Rightarrow> CheckResult
     \<Rightarrow> DeployWatcher \<times> (string \<times> call) list" where
  "handle_result results env w result =
     (let n = service_name result in
      if status result = DOWN then
        (let w1 = w\<lparr>failure_counts := (failure_counts w)(n \<mapsto> get_count (failure_counts w) n + 1)\<rparr>
         in if get_count (failure_counts w1) n \<ge> threshold w1 then
              (let message = ''Service DOWN: '' @ n;
                   sent = notify (notifier w1) message results (net env);
                   r = execute (rollback w1) (exec env)
               in (w1\<lparr>rollback := engine r\<rparr>,
                   [(n, NotifyCall message results), (n, ExecuteCall)]))
            else (w1, []))
      else (w\<lparr>failure_counts := (failure_counts w)(n \<mapsto> 0)\<rparr>, []))"

text \<open>
  The loop itself: \<open>env 0\<close> is the environment of the first iteration still to run.
  The first argument is the whole result list, which every notification carries.
\<close>

fun process_results ::
  "CheckResult list \<Rightarrow> (nat \<Rightarrow> escalation_env) \<Rightarrow> DeployWatcher \<Rightarrow> CheckResult list
     \<Rightarrow> DeployWatcher \<times> (string \<times> call) list" where
  "process_results results env w [] = (w, [])"
| "process_results results env w (r # rs) =
     (let (w1, t1) = handle_result results (env 0) w r;
          (w2, t2) = process_results results (\<lambda>i. env (Suc i)) w1 rs
      in (w2, t1 @ t2))"

text \<open>Lines 257 to 270, on the results \<^verbatim>\<open>check_all\<close> returned.\<close>

definition run_once_on :: "CheckResult list \<Rightarrow> (nat \<Rightarrow> escalation_env) \<Rightarrow> DeployWatcher
     \<Rightarrow> DeployWatcher \<times> (string \<times> call) list" where
  "run_once_on results env w = process_results results env w results"

text \<open>
  \<^verbatim>\<open>run_once\<close>: the results, the watcher afterwards and the calls made; \<open>None\<close>
  when \<^verbatim>\<open>check_all\<close> does not return. Printing the table (\<^verbatim>\<open>verbose\<close>) changes
  nothing and is left out.
\<close>

record cycle_input =
  probes :: "nat \<Rightarrow> http_outcome \<times> real"
  completion :: "nat list"
  escalations :: "nat \<Rightarrow> escalation_env"

definition run_once ::
  "DeployWatcher \<Rightarrow> cycle_input
     \<Rightarrow> (CheckResult list \<times> DeployWatcher \<times> (string \<times> call) list) option" where
  "run_once w c =
     (case check_all w (probes c) (completion c) of
        None \<Rightarrow> None
      | Some results \<Rightarrow> Some (results, run_once_on results (escalations c) w))"

subsection \<open>run\<close>

text \<open>
  The first cycles of the \<^verbatim>\<open>while True\<close> loop of \<^verbatim>\<open>run\<close>, each given the
  results its \<^verbatim>\<open>check_all\<close> returned and its environment: the watcher afterwards
  and, cycle by cycle, the calls made.
\<close>

fun run_cycles ::
  "DeployWatcher \<Rightarrow> (CheckResult list \<times> (nat \<Rightarrow> escalation_env)) list
     \<Rightarrow> DeployWatcher \<times> (string \<times> call) list list" where
  "run_cycles w [] = (w, [])"
| "run_cycles w ((results, env) # cs) =
     (let (w1, t) = run_once_on results env w;
          (w2, ts) = run_cycles w1 cs
      in (w2, t # ts))"

text \<open>The calls a trace holds for one service.\<close>

definition calls_for :: "string \<Rightarrow> (string \<times> call) list \<Rightarrow> call list" where
  "calls_for s t = map snd (filter (\<lambda>(n, c). n = s) t)"

section \<open>main\<close>

text \<open>
  The exit code of \<^verbatim>\<open>main\<close>, from whether the configuration file exists, how the
  construction \<^verbatim>\<open>DeployWatcher(config)\<close> of line 324 ends, the two flags and the
  results \<^verbatim>\<open>run_once\<close> returned. The construction loads and parses the file and
  reads the services from it; what it raises (a malformed or empty file, a service with
  no name or url) is caught nowhere, so the process ends with the interpreter's exit
  code for an uncaught exception, 1. It is \<open>Inl\<close> of the exception's text, or
  \<open>Inr\<close> of the watcher built. A click command that returns exits with 0.
  \<open>None\<close>: neither flag is set and the polling loop runs.
\<close>

definition main ::
  "bool \<Rightarrow> string + DeployWatcher \<Rightarrow> bool \<Rightarrow> bool \<Rightarrow> CheckResult list \<Rightarrow> int option" where
  "main config_exists constructed dry_run once results =
     (if \<not> config_exists then Some 1
      else
        (case constructed of
           Inl raised \<Rightarrow> Some 1
         | Inr watcher \<Rightarrow>
             if dry_run then Some 0
             else if once then
               (let failed = filter (\<lambda>r. status r \<noteq> HEALTHY) results
                in Some (if failed \<noteq> [] then 1 else 0))
             else None))"

section \<open>Concrete inputs\<close>

text \<open>Inputs at which the theorems below are evaluated.\<close>

definition api :: ServiceConfig where
  "api = \<lparr>name = ''api'', url = ''http://api/health'', http_method = ''GET'',
          expected_status = 200, expected_body = Some ''ok'', headers = []\<rparr>"

definition api_empty_body :: ServiceConfig where
  "api_empty_body = api\<lparr>expected_body := Some []\<rparr>"

definition result_of :: "string \<Rightarrow> ServiceStatus \<Rightarrow> CheckResult" where
  "result_of n st = \<lparr>service_name = n, status = st, response_time_ms = 10,
                     status_code = None, error = None\<rparr>"

definition both_sinks :: Notifier where
  "both_sinks = \<lparr>slack_url = ''https://hooks.example/slack'',
                 webhook_url = ''https://hooks.example/generic''\<rparr>"

definition slack_fails :: "sink \<Rightarrow> send_outcome" where
  "slack_fails k = (case k of Slack \<Rightarrow> SendRaised ''connect error'' | Webhook \<Rightarrow> Delivered)"

definition engine0 :: RollbackEngine where
  "engine0 = \<lparr>enabled = True, command = ''kubectl rollout undo deployment/api'',
              cooldown = 300, last_rollback = None\<rparr>"

definition env_raises :: exec_env where
  "env_raises = \<lparr>now_check = 1000, proc = WaitRaised ''broken pipe'', now_done = 1002\<rparr>"

definition env_exit1 :: exec_env where
  "env_exit1 = \<lparr>now_check = 1000, proc = Exited 1, now_done = 1002\<rparr>"

definition env_later :: exec_env where
  "env_later = \<lparr>now_check = 1010, proc = Exited 0, now_done = 1012\<rparr>"

definition escalation0 :: escalation_env where
  "escalation0 = \<lparr>net = slack_fails, exec = env_exit1\<rparr>"

text \<open>
  A watcher of three services with threshold 2 and no failures counted yet; a cycle in
  which only \<open>api\<close> is down; three such cycles in a row.
\<close>

definition watcher0 :: DeployWatcher where
  "watcher0 = \<lparr>services = [api\<lparr>name := ''db''\<rparr>, api, api\<lparr>name := ''cache''\<rparr>],
               notifier = both_sinks, rollback = engine0,
               failure_counts = Map.empty, threshold = 2\<rparr>"

definition api_down :: "CheckResult list" where
  "api_down = [result_of ''db'' HEALTHY, result_of ''api'' DOWN, result_of ''cache'' DEGRADED]"

definition three_down :: "(CheckResult list \<times> (nat \<Rightarrow> escalation_env)) list" where
  "three_down = [(api_down, \<lambda>i. escalation0), (api_down, \<lambda>i. escalation0),
                 (api_down, \<lambda>i. escalation0)]"

text \<open>The same watcher after earlier failures.\<close>

definition watcher1 :: DeployWatcher where
  "watcher1 = watcher0\<lparr>failure_counts := [''db'' \<mapsto> 5, ''api'' \<mapsto> 1, ''cache'' \<mapsto> 4]\<rparr>"

text \<open>What the three probes of one cycle deliver: \<open>api\<close> times out.\<close>

definition probes0 :: "nat \<Rightarrow> http_outcome \<times> real" where
  "probes0 i = (if i = 0 then (Response 200 ''ok'', 950)
                else if i = 1 then (TimeoutException, 5000)
                else (Response 200 ''ok'', 3))"

section \<open>The prober\<close>

lemma body_missing_iff:
  "body_missing b text \<longleftrightarrow> (\<exists>s. b = Some s \<and> \<not> sublist s text)"
  by (cases b) auto

text \<open>
  C5. \<^verbatim>\<open>check\<close> is a total function of the service and of what the HTTP client
  delivers, so it returns a result on every outcome and raises on none. A timeout gives
  \<open>DOWN\<close> with error \<open>''Timeout''\<close>; any other exception gives \<open>DOWN\<close> with the
  exception's text; a response gives \<open>DEGRADED\<close> when its status code is not the
  expected one, else \<open>DEGRADED\<close> when an expected body is configured and is not a
  substring of the response text, else \<open>HEALTHY\<close>.
\<close>

theorem check_classifies:
  "check service TimeoutException elapsed =
     \<lparr>service_name = name service, status = DOWN, response_time_ms = elapsed,
      status_code = None, error = Some ''Timeout''\<rparr>
   \<and> check service (OtherException msg) elapsed =
     \<lparr>service_name = name service, status = DOWN, response_time_ms = elapsed,
      status_code = None, error = Some msg\<rparr>
   \<and> check service (Response code text) elapsed =
     \<lparr>service_name = name service,
      status =
        (if code \<noteq> expected_status service then DEGRADED
         else if (\<exists>b. expected_body service = Some b \<and> \<not> sublist b text) then DEGRADED
         else HEALTHY),
      response_time_ms = elapsed, status_code = Some code, error = None\<rparr>"
  unfolding body_missing_iff [symmetric] by (simp add: check_def)

text \<open>
  The four responders of the specification's test list: matching status and body,
  matching status with the body missing, another status, a timeout; and a refused
  connection.
\<close>

theorem check_classifies_witness:
  "status (check api (Response 200 ''all ok'') 12) = HEALTHY
   \<and> status (check api (Response 200 ''starting'') 12) = DEGRADED
   \<and> status (check api (Response 503 ''all ok'') 12) = DEGRADED
   \<and> status (check api TimeoutException 5000) = DOWN
   \<and> error (check api TimeoutException 5000) = Some ''Timeout''
   \<and> error (check api (OtherException ''Connection refused'') 3) = Some ''Connection refused''"
proof -
  have ok: "sublist ''ok'' ''all ok''" and no: "\<not> sublist ''ok'' ''starting''"
    by code_simp+
  show ?thesis
    using check_classifies [of api 5000 "''Connection refused''" 200 "''all ok''"]
      check_classifies [of api 3 "''Connection refused''" 200 "''starting''"]
      check_classifies [of api 12 "''Connection refused''" 503 "''all ok''"]
      check_classifies [of api 12 "''Connection refused''" 200 "''all ok''"]
      check_classifies [of api 12 "''Connection refused''" 200 "''starting''"]
    by (simp add: api_def ok no)
qed

text \<open>
  C9. A result with status \<open>HEALTHY\<close> or \<open>DEGRADED\<close> carries a status code and no
  error; a result with status \<open>DOWN\<close> carries an error and no status code. The first
  kind is returned exactly when a response was received, and \<open>UNKNOWN\<close> is never
  returned.
\<close>

theorem check_result_fields:
  "(status (check service outcome elapsed) = HEALTHY
      \<or> status (check service outcome elapsed) = DEGRADED
      \<longrightarrow> (\<exists>code. status_code (check service outcome elapsed) = Some code)
          \<and> error (check service outcome elapsed) = None)
   \<and> (status (check service outcome elapsed) = DOWN
      \<longrightarrow> status_code (check service outcome elapsed) = None
          \<and> (\<exists>msg. error (check service outcome elapsed) = Some msg))
   \<and> status (check service outcome elapsed) \<noteq> UNKNOWN
   \<and> ((\<exists>code text. outcome = Response code text)
        \<longleftrightarrow> status (check service outcome elapsed) \<noteq> DOWN)"
  by (cases outcome) (simp_all add: check_def Let_def)

theorem check_result_fields_witness:
  "status (check api (Response 503 ''busy'') 4) = DEGRADED
   \<and> (\<exists>code. status_code (check api (Response 503 ''busy'') 4) = Some code)
   \<and> error (check api (Response 503 ''busy'') 4) = None
   \<and> status (check api TimeoutException 5000) = DOWN
   \<and> status_code (check api TimeoutException 5000) = None
   \<and> (\<exists>msg. error (check api TimeoutException 5000) = Some msg)"
proof -
  have a: "status (check api (Response 503 ''busy'') 4) = DEGRADED"
    and b: "status (check api TimeoutException 5000) = DOWN"
    by (simp_all add: check_def api_def)
  from check_result_fields [of api "Response 503 ''busy''" 4]
    check_result_fields [of api TimeoutException 5000] a b
  show ?thesis by simp
qed

text \<open>
  C10. A service whose expected body is the empty string is checked exactly as the same
  service with no expected body: on every outcome the two results are equal, and a
  response with the expected status code is \<open>HEALTHY\<close> whatever its text.
\<close>

theorem check_empty_expected_body:
  assumes "expected_body service = Some []"
  shows "check service outcome elapsed = check (service\<lparr>expected_body := None\<rparr>) outcome elapsed
    \<and> status (check service (Response (expected_status service) text) elapsed) = HEALTHY"
  using assms by (cases outcome) (simp_all add: check_def)

theorem check_empty_expected_body_witness:
  "expected_body api_empty_body = Some []
   \<and> check api_empty_body (Response 200 ''anything'') 7
       = check (api_empty_body\<lparr>expected_body := None\<rparr>) (Response 200 ''anything'') 7
   \<and> status (check api_empty_body (Response 200 ''anything'') 7) = HEALTHY"
proof -
  have h: "expected_body api_empty_body = Some []"
    and s: "expected_status api_empty_body = 200"
    by (simp_all add: api_empty_body_def api_def)
  from check_empty_expected_body [OF h, of "Response 200 ''anything''" 7 "''anything''"]
  have "check api_empty_body (Response 200 ''anything'') 7
       = check (api_empty_body\<lparr>expected_body := None\<rparr>) (Response 200 ''anything'') 7"
    and "status (check api_empty_body (Response 200 ''anything'') 7) = HEALTHY"
    unfolding s by blast+
  with h show ?thesis by blast
qed

section \<open>The notifier\<close>

text \<open>
  C6, as the claim states it, fails: with both sinks configured, \<^verbatim>\<open>notify\<close> returns
  Python's \<^verbatim>\<open>None\<close>, not a list of outcomes.
\<close>

theorem notify_returns_list_counterexample:
  "\<not> (\<exists>outs. returned_value (notify both_sinks ''Service DOWN: api'' [] slack_fails) = Some outs)"
  by (simp add: notify_def notify_tasks_def both_sinks_def)

text \<open>
  C6, amended. \<^verbatim>\<open>notify\<close> returns no value (\<^verbatim>\<open>None\<close>) and raises nothing; the
  outcomes of the sinks are gathered and dropped. Exactly the configured sinks are
  started, each with the message and the results, whatever any of them does; the
  gathered outcome of a sink is that sink's own; with no sink configured nothing is
  started and nothing gathered.
\<close>

theorem notify_isolated_no_value:
  "returned_value (notify n message results sends) = None
   \<and> started (notify n message results sends) = map (\<lambda>k. (k, message, results)) (notify_tasks n)
   \<and> gathered (notify n message results sends) = map sends (notify_tasks n)
   \<and> (if slack_url n = [] \<and> webhook_url n = []
      then started (notify n message results sends) = []
         \<and> gathered (notify n message results sends) = []
      else started (notify n message results sends) \<noteq> [])"
  by (simp add: notify_def notify_tasks_def gather_return_exceptions_def Let_def)

theorem notify_isolated_no_value_witness:
  "returned_value (notify both_sinks ''Service DOWN: api'' [] slack_fails) = None
   \<and> map fst (started (notify both_sinks ''Service DOWN: api'' [] slack_fails)) = [Slack, Webhook]
   \<and> gathered (notify both_sinks ''Service DOWN: api'' [] slack_fails)
       = [SendRaised ''connect error'', Delivered]
   \<and> started (notify \<lparr>slack_url = [], webhook_url = []\<rparr> ''Service DOWN: api'' [] slack_fails) = []"
  using notify_isolated_no_value [of both_sinks "''Service DOWN: api''" "[]" slack_fails]
    notify_isolated_no_value [of "\<lparr>slack_url = [], webhook_url = []\<rparr>" "''Service DOWN: api''" "[]" slack_fails]
  by (simp add: notify_tasks_def both_sinks_def slack_fails_def)

section \<open>The rollback engine\<close>

text \<open>
  C3, as the claim states it, fails: when waiting on the process raises, the call
  returns with no last-invocation timestamp recorded at all.
\<close>

theorem execute_exception_timestamp_counterexample:
  "proc env_raises = WaitRaised ''broken pipe''
   \<and> \<not> (\<exists>t. last_rollback (engine (execute engine0 env_raises)) = Some t)"
  by (simp add: execute_def in_cooldown_def engine0_def env_raises_def)

text \<open>
  C3, amended. When launching the process or waiting on it raises, \<^verbatim>\<open>execute\<close>
  catches the exception and returns false; the engine, its last-invocation timestamp
  included, is left as it was, so no cooldown window starts.
\<close>

theorem execute_exception_caught:
  assumes "proc env = LaunchRaised msg \<or> proc env = WaitRaised msg"
  shows "returned (execute e env) = False \<and> engine (execute e env) = e"
  using assms by (auto simp: execute_def)

theorem execute_exception_caught_witness:
  "returned (execute engine0 env_raises) = False
   \<and> engine (execute engine0 env_raises) = engine0
   \<and> spawned (execute engine0 env_raises)"
  using execute_exception_caught [of env_raises "''broken pipe''" engine0]
  by (simp add: execute_def in_cooldown_def engine0_def env_raises_def)

text \<open>
  C2, as the claim states it, fails: a first invocation starts the process and the wait
  raises; a second call ten seconds later, well within the cooldown of 300 seconds,
  starts the process again and returns true.
\<close>

theorem execute_cooldown_counterexample:
  "now_check env_later - now_check env_raises < cooldown engine0
   \<and> now_check env_later - now_done env_raises < cooldown engine0
   \<and> spawned (execute engine0 env_raises)
   \<and> returned (execute (engine (execute engine0 env_raises)) env_later)
   \<and> spawned (execute (engine (execute engine0 env_raises)) env_later)"
  by (simp add: execute_def in_cooldown_def engine0_def env_raises_def env_later_def)

text \<open>
  C2, amended. When a first call started the process and the process ended, with any
  return code, at a non-zero clock reading, a second call made less than the cooldown
  after any instant \<open>t0\<close> up to that reading (the time of the first call, say) returns
  false, starts no process and leaves the engine unchanged.
\<close>

theorem execute_cooldown_after_completed_run:
  assumes "spawned (execute e env1)" and "proc env1 = Exited rc"
    and "now_done env1 \<noteq> 0"
    and "t0 \<le> now_done env1" and "now_check env2 - t0 < cooldown e"
  shows "returned (execute (engine (execute e env1)) env2) = False
    \<and> \<not> spawned (execute (engine (execute e env1)) env2)
    \<and> engine (execute (engine (execute e env1)) env2) = engine (execute e env1)"
proof -
  from assms(1,2) have run: "enabled e" "command e \<noteq> []" "\<not> in_cooldown e (now_check env1)"
    by (auto simp: execute_def split: if_splits)
  with assms(2) have e1: "engine (execute e env1) = e\<lparr>last_rollback := Some (now_done env1)\<rparr>"
    by (simp add: execute_def)
  from assms(4,5) have "now_check env2 - now_done env1 < cooldown e"
    by simp
  with assms(3) have "in_cooldown (e\<lparr>last_rollback := Some (now_done env1)\<rparr>) (now_check env2)"
    by (simp add: in_cooldown_def)
  with run e1 show ?thesis
    by (simp add: execute_def)
qed

theorem execute_cooldown_after_completed_run_witness:
  "spawned (execute engine0 env_exit1) \<and> \<not> returned (execute engine0 env_exit1)
   \<and> now_check env_later - now_check env_exit1 < cooldown engine0
   \<and> returned (execute (engine (execute engine0 env_exit1)) env_later) = False
   \<and> \<not> spawned (execute (engine (execute engine0 env_exit1)) env_later)"
proof -
  have a: "spawned (execute engine0 env_exit1)" and b: "proc env_exit1 = Exited 1"
    and c: "now_done env_exit1 \<noteq> 0" and d: "now_check env_exit1 \<le> now_done env_exit1"
    and f: "now_check env_later - now_check env_exit1 < cooldown engine0"
    and g: "\<not> returned (execute engine0 env_exit1)"
    by (simp_all add: execute_def in_cooldown_def engine0_def env_exit1_def env_later_def)
  from execute_cooldown_after_completed_run [OF a b c d f] a f g show ?thesis
    by simp
qed

section \<open>Gathering the probes\<close>

lemma those_map_Some: "those (map Some xs) = Some xs"
  by (induction xs) simp_all

lemma fold_slots_length:
  "length (fold (\<lambda>i slots. slots[i := Some (outs ! i)]) cs slots) = length slots"
  by (induction cs arbitrary: slots) simp_all

lemma fold_slots_nth:
  "i < length slots \<Longrightarrow>
     fold (\<lambda>i slots. slots[i := Some (outs ! i)]) cs slots ! i =
       (if i \<in> set cs then Some (outs ! i) else slots ! i)"
proof (induction cs arbitrary: slots)
  case Nil
  then show ?case by simp
next
  case (Cons c cs)
  from Cons.prems have "i < length (slots[c := Some (outs ! c)])"
    by simp
  from Cons.IH [OF this] Cons.prems show ?case
    by (auto simp: nth_list_update)
qed

lemma gather_complete:
  assumes "{0..<length outs} \<subseteq> set order"
  shows "gather order outs = Some outs"
proof -
  let ?slots = "fold (\<lambda>i slots. slots[i := Some (outs ! i)]) order (replicate (length outs) None)"
  have len: "length ?slots = length outs"
    by (simp add: fold_slots_length)
  have "?slots ! i = map Some outs ! i" if "i < length outs" for i
    using that assms by (auto simp: fold_slots_nth)
  with len have "?slots = map Some outs"
    by (simp add: nth_equalityI)
  then show ?thesis
    by (simp add: gather_def those_map_Some)
qed

lemma check_tasks_names: "map service_name (check_tasks svcs ps) = map name svcs"
  by (rule nth_equalityI) (simp_all add: check_tasks_def nth_enumerate_eq check_def split: http_outcome.split)

text \<open>
  C7. When every probe of the cycle completes, in whatever order, \<^verbatim>\<open>check_all\<close>
  returns one result per configured service, the \<open>i\<close>-th result being the check of the
  \<open>i\<close>-th service: the results stand in declaration order, and so do their names.
\<close>

theorem check_all_declaration_order:
  assumes "set order = {0..<length (services w)}"
  shows "check_all w ps order = Some (check_tasks (services w) ps)
    \<and> length (check_tasks (services w) ps) = length (services w)
    \<and> map service_name (check_tasks (services w) ps) = map name (services w)
    \<and> (\<forall>i < length (services w). check_tasks (services w) ps ! i
          = check (services w ! i) (fst (ps i)) (snd (ps i)))"
proof -
  have "length (check_tasks (services w) ps) = length (services w)"
    by (simp add: check_tasks_def)
  with assms have "check_all w ps order = Some (check_tasks (services w) ps)"
    by (simp add: check_all_def gather_complete)
  then show ?thesis
    by (simp add: check_tasks_names) (simp add: check_tasks_def nth_enumerate_eq)
qed

text \<open>Three services whose probes complete last, first, second.\<close>

theorem check_all_declaration_order_witness:
  "check_all watcher0 probes0 [2, 0, 1] = Some (check_tasks (services watcher0) probes0)
   \<and> map service_name (check_tasks (services watcher0) probes0) = [''db'', ''api'', ''cache'']
   \<and> map status (check_tasks (services watcher0) probes0) = [HEALTHY, DOWN, HEALTHY]"
proof -
  have "set [2, 0, 1] = {0..<length (services watcher0)}"
    by (auto simp: watcher0_def)
  from check_all_declaration_order [OF this, of probes0] show ?thesis
    by (simp add: watcher0_def api_def check_tasks_def check_def probes0_def)
qed

text \<open>
  With every probe complete, \<^verbatim>\<open>run_once\<close> is the loop of \<open>run_once_on\<close> over
  the results in declaration order.
\<close>

lemma run_once_returns:
  assumes "set (completion c) = {0..<length (services w)}"
  shows "run_once w c =
           Some (check_tasks (services w) (probes c),
                 run_once_on (check_tasks (services w) (probes c)) (escalations c) w)"
proof -
  have "length (check_tasks (services w) (probes c)) = length (services w)"
    by (simp add: check_tasks_def)
  with assms show ?thesis
    by (simp add: run_once_def check_all_def gather_complete)
qed

section \<open>The failure counters\<close>

text \<open>One loop iteration: the counter it writes, the threshold, the calls it makes.\<close>

lemma handle_result_counts:
  "failure_counts (fst (handle_result all e w r)) =
     (failure_counts w)(service_name r \<mapsto>
        (if status r = DOWN then get_count (failure_counts w) (service_name r) + 1 else 0))"
  by (simp add: handle_result_def Let_def)

lemma handle_result_threshold: "threshold (fst (handle_result all e w r)) = threshold w"
  by (simp add: handle_result_def Let_def)

lemma handle_result_calls:
  "snd (handle_result all e w r) =
     (if status r = DOWN \<and> threshold w \<le> get_count (failure_counts w) (service_name r) + 1
      then [(service_name r, NotifyCall (''Service DOWN: '' @ service_name r) all),
            (service_name r, ExecuteCall)]
      else [])"
  by (simp add: handle_result_def Let_def get_count_def)

lemma process_results_threshold:
  "threshold (fst (process_results all env w rs)) = threshold w"
  by (induction rs arbitrary: w env) (simp_all add: split_beta Let_def handle_result_threshold)

lemma process_results_other:
  "s \<notin> service_name ` set rs \<Longrightarrow>
     failure_counts (fst (process_results all env w rs)) s = failure_counts w s
     \<and> calls_for s (snd (process_results all env w rs)) = []"
proof (induction rs arbitrary: w env)
  case Nil
  then show ?case by (simp add: calls_for_def)
next
  case (Cons r rs)
  then have "s \<noteq> service_name r" and "s \<notin> service_name ` set rs"
    by auto
  with Cons.IH [of "\<lambda>i. env (Suc i)" "fst (handle_result all (env 0) w r)"] show ?case
    by (simp add: split_beta Let_def handle_result_counts handle_result_calls calls_for_def)
qed

lemma process_results_member:
  assumes "distinct (map service_name rs)" and "r \<in> set rs"
  shows "failure_counts (fst (process_results all env w rs)) (service_name r) =
           Some (if status r = DOWN then get_count (failure_counts w) (service_name r) + 1 else 0)
     \<and> calls_for (service_name r) (snd (process_results all env w rs)) =
           (if status r = DOWN \<and> threshold w \<le> get_count (failure_counts w) (service_name r) + 1
            then [NotifyCall (''Service DOWN: '' @ service_name r) all, ExecuteCall]
            else [])"
  using assms
proof (induction rs arbitrary: w env)
  case Nil
  then show ?case by simp
next
  case (Cons x rs)
  let ?w1 = "fst (handle_result all (env 0) w x)"
  show ?case
  proof (cases "r = x")
    case True
    from Cons.prems(1) have "service_name x \<notin> service_name ` set rs"
      by simp
    from process_results_other [OF this, of all "\<lambda>i. env (Suc i)" ?w1] True show ?thesis
      by (simp add: split_beta Let_def handle_result_counts handle_result_calls calls_for_def)
  next
    case False
    with Cons.prems have mem: "r \<in> set rs" and dist: "distinct (map service_name rs)"
      and fresh: "service_name x \<notin> service_name ` set rs"
      by auto
    from mem fresh have ne: "service_name r \<noteq> service_name x"
      by (metis imageI)
    have "get_count (failure_counts ?w1) (service_name r) = get_count (failure_counts w) (service_name r)"
      using ne by (simp add: handle_result_counts get_count_def)
    with Cons.IH [OF dist mem, of "\<lambda>i. env (Suc i)" ?w1] ne show ?thesis
      by (simp add: split_beta Let_def handle_result_threshold handle_result_calls calls_for_def)
  qed
qed

text \<open>
  C4. In a cycle whose results bear distinct service names (the names of the configured
  services, which the specification takes as unique keys), the counter of each service
  with a result stands afterwards at its prior value plus one when that result is
  \<open>DOWN\<close>, a missing counter counting as 0, and at zero for every other status.
\<close>

theorem run_once_counter_update:
  assumes "distinct (map service_name results)" and "r \<in> set results"
  shows "failure_counts (fst (run_once_on results env w)) (service_name r) =
           Some (if status r = DOWN then get_count (failure_counts w) (service_name r) + 1 else 0)"
  using process_results_member [OF assms] by (simp add: run_once_on_def)

text \<open>A cycle with one service down, one healthy and one degraded, after earlier failures.\<close>

theorem run_once_counter_update_witness:
  "failure_counts (fst (run_once_on api_down (\<lambda>i. escalation0) watcher1)) ''api'' = Some 2
   \<and> failure_counts (fst (run_once_on api_down (\<lambda>i. escalation0) watcher1)) ''db'' = Some 0
   \<and> failure_counts (fst (run_once_on api_down (\<lambda>i. escalation0) watcher1)) ''cache'' = Some 0"
proof -
  have d: "distinct (map service_name api_down)"
    by (simp add: api_down_def result_of_def)
  have "result_of ''api'' DOWN \<in> set api_down" "result_of ''db'' HEALTHY \<in> set api_down"
    "result_of ''cache'' DEGRADED \<in> set api_down"
    by (simp_all add: api_down_def)
  from this [THEN run_once_counter_update [OF d, of _ "\<lambda>i. escalation0" watcher1]]
  show ?thesis
    by (simp add: result_of_def watcher1_def get_count_def)
qed

section \<open>Escalation\<close>

lemma run_once_on_down:
  assumes "distinct (map service_name results)"
    and "\<exists>r \<in> set results. service_name r = s \<and> status r = DOWN"
  shows "get_count (failure_counts (fst (run_once_on results env w))) s
           = get_count (failure_counts w) s + 1"
    and "calls_for s (snd (run_once_on results env w)) =
           (if threshold w \<le> get_count (failure_counts w) s + 1
            then [NotifyCall (''Service DOWN: '' @ s) results, ExecuteCall] else [])"
proof -
  from assms(2) obtain r where r: "r \<in> set results" "service_name r = s" "status r = DOWN"
    by blast
  from process_results_member [OF assms(1) r(1), of results env w] r(2,3)
  show "get_count (failure_counts (fst (run_once_on results env w))) s
           = get_count (failure_counts w) s + 1"
    and "calls_for s (snd (run_once_on results env w)) =
           (if threshold w \<le> get_count (failure_counts w) s + 1
            then [NotifyCall (''Service DOWN: '' @ s) results, ExecuteCall] else [])"
    by (simp_all add: run_once_on_def get_count_def)
qed

lemma run_once_on_threshold: "threshold (fst (run_once_on results env w)) = threshold w"
  by (simp add: run_once_on_def process_results_threshold)

lemma run_cycles_down:
  assumes "\<forall>c \<in> set cycles. distinct (map service_name (fst c))
             \<and> (\<exists>r \<in> set (fst c). service_name r = s \<and> status r = DOWN)"
  shows "get_count (failure_counts (fst (run_cycles w cycles))) s
           = get_count (failure_counts w) s + int (length cycles)
     \<and> (\<forall>j < length cycles. calls_for s (snd (run_cycles w cycles) ! j) =
           (if threshold w \<le> get_count (failure_counts w) s + int j + 1
            then [NotifyCall (''Service DOWN: '' @ s) (fst (cycles ! j)), ExecuteCall] else []))"
  using assms
proof (induction cycles arbitrary: w)
  case Nil
  then show ?case by simp
next
  case (Cons c cs)
  obtain results env where c: "c = (results, env)"
    by (cases c)
  let ?w1 = "fst (run_once_on results env w)"
  from Cons.prems c have d: "distinct (map service_name results)"
    and down: "\<exists>r \<in> set results. service_name r = s \<and> status r = DOWN"
    and rest: "\<forall>c \<in> set cs. distinct (map service_name (fst c))
             \<and> (\<exists>r \<in> set (fst c). service_name r = s \<and> status r = DOWN)"
    by simp_all
  note head = run_once_on_down [OF d down, of env w]
  note tail = Cons.IH [OF rest, of ?w1]
  have count: "get_count (failure_counts (fst (run_cycles w (c # cs)))) s
           = get_count (failure_counts w) s + int (length (c # cs))"
    using tail head(1) by (simp add: c split_beta)
  have calls: "calls_for s (snd (run_cycles w (c # cs)) ! j) =
           (if threshold w \<le> get_count (failure_counts w) s + int j + 1
            then [NotifyCall (''Service DOWN: '' @ s) (fst ((c # cs) ! j)), ExecuteCall] else [])"
    if "j < length (c # cs)" for j
  proof (cases j)
    case 0
    with head(2) show ?thesis
      by (simp add: c split_beta)
  next
    case (Suc k)
    with that have "k < length cs"
      by simp
    with tail have "calls_for s (snd (run_cycles ?w1 cs) ! k) =
           (if threshold ?w1 \<le> get_count (failure_counts ?w1) s + int k + 1
            then [NotifyCall (''Service DOWN: '' @ s) (fst (cs ! k)), ExecuteCall] else [])"
      by blast
    with head(1) Suc show ?thesis
      by (simp add: c split_beta run_once_on_threshold add.commute add.left_commute)
  qed
  from count calls show ?case
    by blast
qed

text \<open>
  C1. Take a service \<open>s\<close> whose counter is 0 and a run of cycles in each of which the
  result for \<open>s\<close> is \<open>DOWN\<close> (result names distinct within a cycle). With \<open>T\<close> the
  threshold, each of the first \<open>T - 1\<close> cycles makes no call for \<open>s\<close>; the \<open>T\<close>-th
  cycle makes exactly one \<^verbatim>\<open>notify\<close> call followed by one \<^verbatim>\<open>execute\<close> call for
  \<open>s\<close>; and so does every later cycle of the run, the counter standing at the number
  of cycles run.
\<close>

theorem escalation_at_threshold:
  assumes "get_count (failure_counts w) s = 0"
    and "\<forall>c \<in> set cycles. distinct (map service_name (fst c))
             \<and> (\<exists>r \<in> set (fst c). service_name r = s \<and> status r = DOWN)"
    and "j < length cycles"
  shows "calls_for s (snd (run_cycles w cycles) ! j) =
           (if int (j + 1) < threshold w then []
            else [NotifyCall (''Service DOWN: '' @ s) (fst (cycles ! j)), ExecuteCall])
     \<and> get_count (failure_counts (fst (run_cycles w (take (j + 1) cycles)))) s = int (j + 1)"
proof -
  from assms(2) have "\<forall>c \<in> set (take (j + 1) cycles). distinct (map service_name (fst c))
             \<and> (\<exists>r \<in> set (fst c). service_name r = s \<and> status r = DOWN)"
    by (meson in_set_takeD)
  from run_cycles_down [OF this, of w] assms(1,3)
  have "get_count (failure_counts (fst (run_cycles w (take (j + 1) cycles)))) s = int (j + 1)"
    by simp
  moreover from run_cycles_down [OF assms(2), of w] assms(1,3)
  have "calls_for s (snd (run_cycles w cycles) ! j) =
           (if int (j + 1) < threshold w then []
            else [NotifyCall (''Service DOWN: '' @ s) (fst (cycles ! j)), ExecuteCall])"
    by auto
  ultimately show ?thesis
    by blast
qed

text \<open>
  The specification's scenario, one cycle longer: threshold 2, three cycles with
  \<open>api\<close> down.
\<close>

theorem escalation_at_threshold_witness:
  "threshold watcher0 = 2
   \<and> calls_for ''api'' (snd (run_cycles watcher0 three_down) ! 0) = []
   \<and> calls_for ''api'' (snd (run_cycles watcher0 three_down) ! 1)
       = [NotifyCall ''Service DOWN: api'' api_down, ExecuteCall]
   \<and> calls_for ''api'' (snd (run_cycles watcher0 three_down) ! 2)
       = [NotifyCall ''Service DOWN: api'' api_down, ExecuteCall]"
proof -
  have h1: "get_count (failure_counts watcher0) ''api'' = 0"
    and T: "threshold watcher0 = 2"
    by (simp_all add: watcher0_def get_count_def)
  have h2: "\<forall>c \<in> set three_down. distinct (map service_name (fst c))
             \<and> (\<exists>r \<in> set (fst c). service_name r = ''api'' \<and> status r = DOWN)"
    by (simp add: three_down_def api_down_def result_of_def)
  have "(0::nat) < length three_down" "1 < length three_down" "2 < length three_down"
    by (simp_all add: three_down_def)
  from this [THEN escalation_at_threshold [OF h1 h2]] T show ?thesis
    by (simp add: three_down_def)
qed

section \<open>The exit code\<close>

text \<open>
  C8. With \<^verbatim>\<open>--once\<close>, when the single cycle runs (the configuration file exists,
  the watcher is constructed from it, and \<^verbatim>\<open>--dry-run\<close> is not given), the exit code
  is 1 when some result of the cycle has a status other than \<open>HEALTHY\<close>, and 0
  otherwise.
\<close>

theorem main_once_exit_code:
  assumes "config_exists" and "constructed = Inr watcher" and "\<not> dry_run"
  shows "main config_exists constructed dry_run True results =
           Some (if (\<exists>r \<in> set results. status r \<noteq> HEALTHY) then 1 else 0)"
  using assms by (simp add: main_def filter_empty_conv)

theorem main_once_exit_code_witness:
  "main True (Inr watcher0) False True [result_of ''api'' HEALTHY, result_of ''db'' HEALTHY] = Some 0
   \<and> main True (Inr watcher0) False True [result_of ''api'' HEALTHY, result_of ''db'' DEGRADED] = Some 1
   \<and> main True (Inr watcher0) False True [result_of ''api'' DOWN] = Some 1
   \<and> main True (Inr watcher0) False True [result_of ''api'' UNKNOWN] = Some 1
   \<and> main True (Inr watcher0) False True [] = Some 0"
proof -
  have c: "True" and k: "(Inr watcher0 :: string + DeployWatcher) = Inr watcher0" and d: "\<not> False"
    by simp_all
  note exit_code = main_once_exit_code [OF c k d]
  from exit_code [of "[result_of ''api'' HEALTHY, result_of ''db'' HEALTHY]"]
    exit_code [of "[result_of ''api'' HEALTHY, result_of ''db'' DEGRADED]"]
    exit_code [of "[result_of ''api'' DOWN]"]
    exit_code [of "[result_of ''api'' UNKNOWN]"]
    exit_code [of "[]"]
  show ?thesis
    by (simp add: result_of_def)
qed

text \<open>
  Outside that case the exit code does not come from the results: a missing file or a
  construction that raises gives 1, and \<^verbatim>\<open>--dry-run\<close> on a constructed watcher
  gives 0, with or without \<^verbatim>\<open>--once\<close>.
\<close>

lemma main_without_cycle:
  "main False constructed dry_run once results = Some 1"
  "main True (Inl raised) dry_run once results = Some 1"
  "main True (Inr watcher) True once results = Some 0"
  by (simp_all add: main_def)

end
